theory Spec2Isabelle
  imports Main
begin

section \<open>Errors\<close>

text \<open>
  A Go \<open>error\<close> value. The code compares errors with two sentinels by identity
  (\<open>err == io.EOF\<close> in main.go, \<open>err == gocui.ErrQuit\<close> in the selector); every other
  error value is \<open>Err s\<close>, with \<open>s\<close> the text its \<open>Error()\<close> method returns. A nil error
  is \<open>None\<close> of type \<open>error option\<close>.
\<close>

datatype error = EOF | ErrQuit | Err string

fun error_text :: "error \<Rightarrow> string" where
  "error_text EOF = ''EOF''"
| "error_text ErrQuit = ''quit''"
| "error_text (Err s) = s"

section \<open>The port-forwarding supervisor (main.go)\<close>

subsection \<open>Data\<close>

text \<open>
  \<open>time.Duration\<close> counts nanoseconds in an int64; the only value built here is
  \<open>3 * time.Minute\<close>, far below \<open>2 ^ 63\<close>, so no wrap-around is involved.
\<close>

type_synonym Duration = int

definition Nanosecond :: Duration where "Nanosecond = 1"
definition Microsecond :: Duration where "Microsecond = 1000 * Nanosecond"
definition Millisecond :: Duration where "Millisecond = 1000 * Microsecond"
definition Second :: Duration where "Second = 1000 * Millisecond"
definition Minute :: Duration where "Minute = 60 * Second"

record sleepReader =
  dur :: Duration

text \<open>
  The fields of \<open>config.ForwardingNode\<close> that main.go reads and writes. The struct is
  declared in package config; its method \<open>Address()\<close> is a parameter of the
  functions below.
\<close>

record ForwardingNode =
  ListenPort :: string
  Host :: string
  UserLogin :: string
  Status :: bool
  Error :: string

text \<open>
  \<open>fwd\<close> without its \<open>tsh\<close> handle: the results of \<open>tsh.Forward\<close> are given to the
  worker as the list of values its successive calls return.
\<close>

record fwd =
  nodeHost :: string
  fwd_list :: "ForwardingNode list"
  defaultUser :: string

text \<open>One call \<open>f.tsh.Forward(user, host, address, in)\<close>, with its four arguments.\<close>

record forward_call =
  arg_user :: string
  arg_host :: string
  arg_address :: string
  arg_in :: sleepReader

text \<open>
  What one run of \<open>execForwarding\<close> has done so far: the node as it left it, the calls of
  \<open>tsh.Forward\<close> it made, in order, and whether it has returned (\<open>False\<close>: it is inside
  the last call of \<open>calls\<close>, which has not returned yet).
\<close>

record worker_run =
  node_after :: ForwardingNode
  calls :: "forward_call list"
  returned :: bool

subsection \<open>sleepReader.Read\<close>

text \<open>
  \<open>Read(p)\<close> calls \<open>time.Sleep(f.dur)\<close> and returns \<open>(0, io.EOF)\<close>; it never writes to
  \<open>p\<close>. The result lists: the duration it sleeps for, the buffer after the call, \<open>n\<close>
  and \<open>err\<close>.
\<close>

definition Read :: "sleepReader \<Rightarrow> nat list \<Rightarrow> Duration \<times> nat list \<times> int \<times> error option" where
  "Read f p = (dur f, p, 0, Some EOF)"

subsection \<open>fwd.execForwarding\<close>

text \<open>Lines 437 to 443: the defaults are written into the node where it has none.\<close>

definition fill_defaults :: "fwd \<Rightarrow> ForwardingNode \<Rightarrow> ForwardingNode" where
  "fill_defaults f node =
     (let node1 = (if UserLogin node = '''' then node\<lparr>UserLogin := defaultUser f\<rparr> else node)
      in if Host node1 = '''' then node1\<lparr>Host := nodeHost f\<rparr> else node1)"

text \<open>Lines 445 and 446: the arguments of the call of \<open>tsh.Forward\<close>.\<close>

definition forward_args :: "fwd \<Rightarrow> (ForwardingNode \<Rightarrow> string) \<Rightarrow> ForwardingNode \<Rightarrow> forward_call" where
  "forward_args f Address node =
     \<lparr>arg_user = UserLogin node, arg_host = nodeHost f, arg_address = Address node,
      arg_in = \<lparr>dur = 3 * Minute\<rparr>\<rparr>"

definition after_call :: "forward_call \<Rightarrow> worker_run \<Rightarrow> worker_run" where
  "after_call c r = r\<lparr>calls := c # calls r\<rparr>"

text \<open>
  The loop of \<open>execForwarding\<close>, one iteration for each value \<open>tsh.Forward\<close> returns.
  When the list of returned values is used up, the worker has made its next call and
  is blocked in it.
\<close>

fun execForwarding ::
  "fwd \<Rightarrow> (ForwardingNode \<Rightarrow> string) \<Rightarrow> error option list \<Rightarrow> ForwardingNode \<Rightarrow> worker_run" where
  "execForwarding f Address [] node0 =
     (let node = fill_defaults f node0
      in \<lparr>node_after = node, calls = [forward_args f Address node], returned = False\<rparr>)"
| "execForwarding f Address (err # rest) node0 =
     (let node = fill_defaults f node0;
          c = forward_args f Address node
      in if err = Some EOF then
           after_call c (execForwarding f Address rest (node\<lparr>Status := True\<rparr>))
         else
           (case err of
              Some e \<Rightarrow>
                \<lparr>node_after = node\<lparr>Status := False, Error := error_text e\<rparr>,
                 calls = [c], returned = True\<rparr>
            | None \<Rightarrow>
                after_call c (execForwarding f Address rest (node\<lparr>Status := True\<rparr>))))"

subsection \<open>fwd.doHealthCheck\<close>

text \<open>\<open>net.JoinHostPort\<close> of the standard library: a host with a colon is bracketed.\<close>

definition JoinHostPort :: "string \<Rightarrow> string \<Rightarrow> string" where
  "JoinHostPort h port =
     (if CHR '':'' \<in> set h then ''['' @ h @ '']:'' @ port else h @ '':'' @ port)"

text \<open>
  The body of the goroutine that \<open>doHealthCheck\<close> starts for one node on every tick.
  \<open>dial\<close> stands for \<open>net.DialTimeout("tcp", _, time.Second)\<close>: the error it returns
  for an address, \<open>None\<close> when the connection is made.
\<close>

definition probe ::
  "fwd \<Rightarrow> (ForwardingNode \<Rightarrow> string) \<Rightarrow> (string \<Rightarrow> error option) \<Rightarrow> error option list \<Rightarrow>
   ForwardingNode \<Rightarrow> worker_run" where
  "probe f Address dial results node =
     (case dial (JoinHostPort ''localhost'' (ListenPort node)) of
        Some err \<Rightarrow>
          execForwarding f Address results (node\<lparr>Status := False, Error := error_text err\<rparr>)
      | None \<Rightarrow>
          \<lparr>node_after = node\<lparr>Status := True, Error := ''''\<rparr>, calls = [], returned = True\<rparr>)"

subsection \<open>fwd.Run\<close>

text \<open>
  What \<open>Run\<close> starts, in order: a goroutine running \<open>execForwarding\<close> for a node, the
  goroutine running \<open>doHealthCheck\<close>, and the call of \<open>ui.NewForwarding\<close> on the list.
\<close>

datatype launch =
  GoExecForwarding ForwardingNode
| GoHealthCheck
| CallNewForwarding "ForwardingNode list"

fun launch_workers :: "ForwardingNode list \<Rightarrow> launch list" where
  "launch_workers [] = []"
| "launch_workers (node # rest) = GoExecForwarding node # launch_workers rest"

definition Run :: "fwd \<Rightarrow> error option \<times> launch list" where
  "Run f =
     (if length (fwd_list f) = 0 then (Some (Err ''forwarding configuration is empty''), [])
      else (None, launch_workers (fwd_list f) @ [GoHealthCheck, CallNewForwarding (fwd_list f)]))"

section \<open>The login-user selector (ui/login_user_selector.go)\<close>

subsection \<open>Slices\<close>

text \<open>
  \<open>reverse\<close> copies its argument into a fresh backing array and swaps in place there, so
  slices are modelled with their backing arrays: the heap is the list of arrays
  allocated so far, and a slice is a window (array, offset, length) on one of them.
\<close>

type_synonym heap = "string list list"

record slice =
  arr :: nat
  off :: nat
  len :: nat

definition wf_slice :: "heap \<Rightarrow> slice \<Rightarrow> bool" where
  "wf_slice h s = (arr s < length h \<and> off s + len s \<le> length (h ! arr s))"

definition slice_elems :: "heap \<Rightarrow> slice \<Rightarrow> string list" where
  "slice_elems h s = take (len s) (drop (off s) (h ! arr s))"

definition write_slice :: "heap \<Rightarrow> slice \<Rightarrow> string list \<Rightarrow> heap" where
  "write_slice h s xs =
     h[arr s := take (off s) (h ! arr s) @ xs @ drop (off s + length xs) (h ! arr s)]"

text \<open>\<open>make([]string, n)\<close>: a new array of \<open>n\<close> empty strings, and the slice of all of it.\<close>

definition make_slice :: "heap \<Rightarrow> nat \<Rightarrow> heap \<times> slice" where
  "make_slice h n = (h @ [replicate n ''''], \<lparr>arr = length h, off = 0, len = n\<rparr>)"

text \<open>\<open>copy(dst, src)\<close>: the first \<open>min(len(dst), len(src))\<close> elements of \<open>src\<close> go to \<open>dst\<close>.\<close>

definition copy_slice :: "heap \<Rightarrow> slice \<Rightarrow> slice \<Rightarrow> heap" where
  "copy_slice h dst src =
     (let n = min (len dst) (len src)
      in write_slice h dst (take n (slice_elems h src) @ drop n (slice_elems h dst)))"

subsection \<open>reverse\<close>

text \<open>
  The loop \<open>for i := len(a)/2 - 1; i >= 0; i--\<close> on the elements of \<open>a\<close>. An index out
  of range panics in Go: \<open>None\<close>.
\<close>

function reverse_loop :: "int \<Rightarrow> string list \<Rightarrow> string list option" where
  "reverse_loop i a =
     (if i \<ge> 0 then
        (let opp = int (length a) - 1 - i
         in if i < int (length a) \<and> 0 \<le> opp \<and> opp < int (length a)
            then reverse_loop (i - 1) (a[nat i := a ! nat opp, nat opp := a ! nat i])
            else None)
      else Some a)"
  by pat_completeness auto
termination
  by (relation "measure (\<lambda>(i, a). nat (i + 1))") auto

declare reverse_loop.simps [simp del]

text \<open>
  \<open>reverse(s)\<close>: the heap after the call and the slice returned, \<open>None\<close> for a panic.
  The swaps go to the array of \<open>a\<close>, the one \<open>make\<close> has just allocated.
\<close>

definition reverse :: "heap \<Rightarrow> slice \<Rightarrow> (heap \<times> slice) option" where
  "reverse h s =
     (case make_slice h (len s) of
        (h1, a) \<Rightarrow>
          (let h2 = copy_slice h1 a s
           in case reverse_loop (int (len a) div 2 - 1) (slice_elems h2 a) of
                None \<Rightarrow> None
              | Some b \<Rightarrow> Some (write_slice h2 a b, a)))"

subsection \<open>LoginUser\<close>

text \<open>
  The fields of \<open>LoginUser\<close> that the key handlers read and write; the gocui handle, the
  view name and the screen size are left out. \<open>user_list\<close> is the field \<open>list\<close>, held
  as the elements of the reversed slice, which nothing writes to after
  \<open>NewLoginUser\<close>. \<open>pos\<close> is a Go \<open>int\<close>; it only moves between 0 and the length of
  the list, so it is an \<open>int\<close> here without wrap-around.
\<close>

record LoginUser =
  user_list :: "string list"
  selectedUser :: string
  pos :: int

text \<open>
  \<open>NewLoginUser(listUser)\<close>. \<open>new_gui\<close> is the error of \<open>gocui.NewGui\<close> and \<open>key_bind\<close>
  the error of \<open>registerKeyBind\<close> (the first error of its \<open>SetKeybinding\<close> calls), both
  \<open>None\<close> for nil. The outer \<open>None\<close> is a panic.
\<close>

definition NewLoginUser ::
  "heap \<Rightarrow> slice \<Rightarrow> error option \<Rightarrow> error option \<Rightarrow> (error + LoginUser) option" where
  "NewLoginUser h listUser new_gui key_bind =
     (case new_gui of
        Some err \<Rightarrow> Some (Inl err)
      | None \<Rightarrow>
          (case reverse h listUser of
             None \<Rightarrow> None
           | Some (h', listUser') \<Rightarrow>
               (let l = \<lparr>user_list = slice_elems h' listUser', selectedUser = '''', pos = 0\<rparr>
                in case key_bind of
                     Some err \<Rightarrow> Some (Inl err)
                   | None \<Rightarrow> Some (Inr l))))"

text \<open>The three closures that \<open>registerKeyBind\<close> passes to \<open>handleNav\<close>, by their key.\<close>

datatype nav_key = KeyTab | KeyArrowUp | KeyArrowDown

fun nav :: "nav_key \<Rightarrow> LoginUser \<Rightarrow> LoginUser" where
  "nav KeyTab l = (if pos l < int (length (user_list l)) - 1 then l\<lparr>pos := pos l + 1\<rparr> else l)"
| "nav KeyArrowUp l = (if pos l > 0 then l\<lparr>pos := pos l - 1\<rparr> else l)"
| "nav KeyArrowDown l = (if pos l < int (length (user_list l)) - 1 then l\<lparr>pos := pos l + 1\<rparr> else l)"

text \<open>
  \<open>handleNav(c)\<close>: run \<open>c\<close>, then return what \<open>l.write(v)\<close> returns (\<open>written\<close>, the error
  of the view's \<open>Write\<close>).
\<close>

definition handleNav ::
  "(LoginUser \<Rightarrow> LoginUser) \<Rightarrow> error option \<Rightarrow> LoginUser \<Rightarrow> LoginUser \<times> error option" where
  "handleNav c written l = (c l, written)"

text \<open>\<open>handleEnter\<close>: \<open>l.list[l.pos]\<close> panics out of range (\<open>None\<close>).\<close>

definition handleEnter :: "LoginUser \<Rightarrow> (LoginUser \<times> error option) option" where
  "handleEnter l =
     (if 0 \<le> pos l \<and> pos l < int (length (user_list l))
      then Some (l\<lparr>selectedUser := user_list l ! nat (pos l)\<rparr>, Some ErrQuit)
      else None)"

text \<open>The selector after the navigation keys \<open>ks\<close>, whatever the writes to the view return.\<close>

fun press :: "(nav_key \<times> error option) list \<Rightarrow> LoginUser \<Rightarrow> LoginUser" where
  "press [] l = l"
| "press ((k, written) # ks) l = press ks (fst (handleNav (nav k) written l))"

text \<open>
  \<open>Run\<close>. \<open>MainLoop\<close> stands for \<open>l.g.MainLoop()\<close>, which calls the handlers: it gives
  the selector as the handlers left it and the error it returns, or \<open>None\<close> when a
  handler panics or the loop never ends.
\<close>

definition LoginUser_Run ::
  "(LoginUser \<Rightarrow> (LoginUser \<times> error option) option) \<Rightarrow> LoginUser \<Rightarrow>
   (string \<times> error option) option" where
  "LoginUser_Run MainLoop l =
     (case MainLoop l of
        None \<Rightarrow> None
      | Some (l', err) \<Rightarrow>
          if err = Some ErrQuit then Some (selectedUser l', None)
          else Some (selectedUser l', err))"

section \<open>getUserLogin (main.go)\<close>

record ProxyStatus =
  UserLogins :: slice

record Node =
  Node_Status :: "ProxyStatus option"

text \<open>
  \<open>flag\<close> is what \<open>cmd.Flags().GetString("user")\<close> returns. The result is the pair
  returned, \<open>None\<close> when the call does not return.
\<close>

definition getUserLogin ::
  "heap \<Rightarrow> string \<times> error option \<Rightarrow> Node \<Rightarrow> error option \<Rightarrow> error option \<Rightarrow>
   (LoginUser \<Rightarrow> (LoginUser \<times> error option) option) \<Rightarrow> (string \<times> error option) option" where
  "getUserLogin h flag node new_gui key_bind MainLoop =
     (case flag of
        (userLogin, err) \<Rightarrow>
          if err \<noteq> None then Some ('''', err)
          else if userLogin \<noteq> '''' then Some (userLogin, None)
          else
            (case Node_Status node of
               None \<Rightarrow>
                 Some ('''', Some (Err
                   ''need to run using flag -a or -r to get the latest user login''))
             | Some status \<Rightarrow>
                 (case NewLoginUser h (UserLogins status) new_gui key_bind of
                    None \<Rightarrow> None
                  | Some (Inl err) \<Rightarrow> Some ('''', Some err)
                  | Some (Inr uiUser) \<Rightarrow>
                      (case LoginUser_Run MainLoop uiUser of
                         None \<Rightarrow> None
                       | Some (user, err) \<Rightarrow>
                           if err \<noteq> None then Some ('''', err)
                           else if user = '''' then
                             Some ('''', Some (Err ''user login must not be empty''))
                           else Some (user, None)))))"

text \<open>A session at the selector: Tab, then Enter.\<close>

definition tab_enter :: "LoginUser \<Rightarrow> (LoginUser \<times> error option) option" where
  "tab_enter l = handleEnter (press [(KeyTab, None)] l)"

definition heap0 :: heap where
  "heap0 = [[''root'', ''admin'', ''deploy''], []]"

definition users3 :: slice where
  "users3 = \<lparr>arr = 0, off = 0, len = 3\<rparr>"

definition users0 :: slice where
  "users0 = \<lparr>arr = 1, off = 0, len = 0\<rparr>"

section \<open>Concrete inputs\<close>

text \<open>
  Modelled from the spec: \<open>config.ForwardingNode.Address()\<close>, which is declared in package
  config; the spec gives \<open>localhost:listenPort\<close> as the derived address. It
  is used for the concrete runs only: every general statement below holds for any
  \<open>Address\<close>.
\<close>

definition Address_spec :: "ForwardingNode \<Rightarrow> string" where
  "Address_spec node = ''localhost:'' @ ListenPort node"

definition fwd0 :: fwd where
  "fwd0 = \<lparr>nodeHost = ''node-1'', fwd_list = [], defaultUser = ''root''\<rparr>"

definition node_bare :: ForwardingNode where
  "node_bare =
     \<lparr>ListenPort = ''8080'', Host = '''', UserLogin = '''', Status = False, Error = ''''\<rparr>"

definition node_own :: ForwardingNode where
  "node_own =
     \<lparr>ListenPort = ''8080'', Host = ''node-2'', UserLogin = ''admin'', Status = False,
      Error = ''''\<rparr>"

definition fwd_two :: fwd where
  "fwd_two = \<lparr>nodeHost = ''node-1'', fwd_list = [node_bare, node_own], defaultUser = ''root''\<rparr>"

definition refused :: error where
  "refused = Err ''connection refused''"

definition dial_refused :: "string \<Rightarrow> error option" where
  "dial_refused addr = Some refused"

definition dial_ok :: "string \<Rightarrow> error option" where
  "dial_ok addr = None"

section \<open>Properties of the supervisor\<close>

subsection \<open>Auxiliary facts\<close>

lemma fill_defaults_fields [simp]:
  "ListenPort (fill_defaults f node) = ListenPort node"
  "Status (fill_defaults f node) = Status node"
  "Error (fill_defaults f node) = Error node"
  "UserLogin (fill_defaults f node) = (if UserLogin node = '''' then defaultUser f else UserLogin node)"
  "Host (fill_defaults f node) = (if Host node = '''' then nodeHost f else Host node)"
  by (simp_all add: fill_defaults_def Let_def)

lemma fill_defaults_Status_update [simp]:
  "fill_defaults f (node\<lparr>Status := b\<rparr>) = (fill_defaults f node)\<lparr>Status := b\<rparr>"
  by (simp add: fill_defaults_def Let_def)

lemma fill_defaults_idem [simp]:
  "fill_defaults f (fill_defaults f node) = fill_defaults f node"
  by (simp add: fill_defaults_def Let_def)

lemma execForwarding_frame:
  "ListenPort (node_after (execForwarding f A results node)) = ListenPort node \<and>
   UserLogin (node_after (execForwarding f A results node)) = UserLogin (fill_defaults f node) \<and>
   Host (node_after (execForwarding f A results node)) = Host (fill_defaults f node)"
proof (induction results arbitrary: node)
  case Nil
  show ?case by (simp add: Let_def)
next
  case (Cons err rest)
  show ?case
    by (cases err) (simp_all add: Let_def after_call_def Cons.IH)
qed

lemma execForwarding_call_args:
  "c \<in> set (calls (execForwarding f A results node)) \<Longrightarrow>
   arg_user c = UserLogin (fill_defaults f node) \<and> arg_host c = nodeHost f \<and>
   arg_in c = \<lparr>dur = 3 * Minute\<rparr>"
proof (induction results arbitrary: node)
  case Nil
  then show ?case by (simp add: Let_def forward_args_def)
next
  case (Cons err rest)
  then show ?case
    by (cases err) (auto simp: Let_def after_call_def forward_args_def split: if_splits)
qed

lemma execForwarding_first_call:
  "calls (execForwarding f A results node) \<noteq> [] \<and>
   hd (calls (execForwarding f A results node)) = forward_args f A (fill_defaults f node)"
proof (cases results)
  case Nil
  then show ?thesis by (simp add: Let_def)
next
  case (Cons err rest)
  then show ?thesis by (cases err) (simp_all add: Let_def after_call_def)
qed

text \<open>
  Results that keep the loop going (nil and \<open>io.EOF\<close>) each cost one call and leave the
  worker where a fresh run on the node, defaults filled in and marked healthy, would be.
\<close>

lemma execForwarding_restarts:
  "set pre \<subseteq> {None, Some EOF} \<Longrightarrow>
   node_after (execForwarding f A (pre @ rest) node) =
     node_after (execForwarding f A rest
       (if pre = [] then node else (fill_defaults f node)\<lparr>Status := True\<rparr>)) \<and>
   returned (execForwarding f A (pre @ rest) node) =
     returned (execForwarding f A rest
       (if pre = [] then node else (fill_defaults f node)\<lparr>Status := True\<rparr>)) \<and>
   length (calls (execForwarding f A (pre @ rest) node)) =
     length pre + length (calls (execForwarding f A rest
       (if pre = [] then node else (fill_defaults f node)\<lparr>Status := True\<rparr>)))"
proof (induction pre arbitrary: node)
  case Nil
  show ?case by simp
next
  case (Cons r pre)
  from Cons.prems have r: "r = None \<or> r = Some EOF" and pre: "set pre \<subseteq> {None, Some EOF}"
    by auto
  from r show ?case
    using Cons.IH [OF pre, of "(fill_defaults f node)\<lparr>Status := True\<rparr>"]
    by (auto simp: Let_def after_call_def)
qed

lemma execForwarding_error_step:
  "e \<noteq> EOF \<Longrightarrow>
   execForwarding f A (Some e # rest) node =
     \<lparr>node_after = (fill_defaults f node)\<lparr>Status := False, Error := error_text e\<rparr>,
      calls = [forward_args f A (fill_defaults f node)], returned = True\<rparr>"
  by (simp add: Let_def)

lemma launch_workers_map: "launch_workers nodes = map GoExecForwarding nodes"
  by (induction nodes) simp_all

lemma JoinHostPort_localhost [simp]: "JoinHostPort ''localhost'' port = ''localhost:'' @ port"
  by (simp add: JoinHostPort_def)

lemma probe_frame:
  "ListenPort (node_after (probe f A dial results node)) = ListenPort node \<and>
   (UserLogin (node_after (probe f A dial results node)) = UserLogin node \<or>
    UserLogin node = '''' \<and> UserLogin (node_after (probe f A dial results node)) = defaultUser f) \<and>
   (Host (node_after (probe f A dial results node)) = Host node \<or>
    Host node = '''' \<and> Host (node_after (probe f A dial results node)) = nodeHost f)"
  by (cases "dial (JoinHostPort ''localhost'' (ListenPort node))")
     (simp_all add: probe_def execForwarding_frame)

lemma probe_call_args:
  "c \<in> set (calls (probe f A dial results node)) \<Longrightarrow> arg_in c = \<lparr>dur = 3 * Minute\<rparr>"
  by (cases "dial (JoinHostPort ''localhost'' (ListenPort node))")
     (auto simp: probe_def dest: execForwarding_call_args)

subsection \<open>Effective user and host\<close>

text \<open>
  Claim C1 says that the user and the host passed to \<open>tsh.Forward\<close> are the node's own
  where it has them and the defaults otherwise. The user is; the host argument is
  \<open>f.nodeHost\<close> on every call: the loop fills \<open>node.Host\<close> and then does not pass it. For
  a node with host \<open>node-2\<close> and user \<open>admin\<close>, under the defaults \<open>node-1\<close> and
  \<open>root\<close>, both calls of a run with one idle restart, and the call of the health
  checker's recovery, go to \<open>node-1\<close> as \<open>admin\<close>, while the node still reads \<open>node-2\<close>.
\<close>

theorem forward_host_ignores_node_host:
  "map arg_user (calls (execForwarding fwd0 Address_spec [Some EOF] node_own)) =
     [''admin'', ''admin''] \<and>
   map arg_host (calls (execForwarding fwd0 Address_spec [Some EOF] node_own)) =
     [''node-1'', ''node-1''] \<and>
   Host (node_after (execForwarding fwd0 Address_spec [Some EOF] node_own)) = ''node-2'' \<and>
   map arg_host (calls (probe fwd0 Address_spec dial_refused [] node_own)) = [''node-1'']"
  by (simp add: fwd0_def node_own_def Address_spec_def Let_def after_call_def forward_args_def
      fill_defaults_def probe_def dial_refused_def)

subsection \<open>The idle restart\<close>

text \<open>
  Claim C2 says that on \<open>io.EOF\<close> the worker marks the tunnel healthy, clears
  \<open>lastError\<close> and goes round its loop again. It marks it healthy and goes round again,
  but the branch never writes \<open>node.Error\<close>. After a failed probe has recorded
  \<open>connection refused\<close> and called \<open>execForwarding\<close>, one idle expiry leaves the node
  healthy with that text still in place, a second call made and the run not returned;
  the same holds for a run started on a node that carries the text, after two expiries.
\<close>

theorem eof_keeps_lastError:
  "node_after (probe fwd0 Address_spec dial_refused [Some EOF] node_bare) =
     \<lparr>ListenPort = ''8080'', Host = ''node-1'', UserLogin = ''root'', Status = True,
      Error = ''connection refused''\<rparr> \<and>
   length (calls (probe fwd0 Address_spec dial_refused [Some EOF] node_bare)) = 2 \<and>
   \<not> returned (probe fwd0 Address_spec dial_refused [Some EOF] node_bare) \<and>
   Error (node_after (execForwarding fwd0 Address_spec [Some EOF, Some EOF]
      (node_bare\<lparr>Error := ''connection refused''\<rparr>))) = ''connection refused''"
  by (simp add: fwd0_def node_bare_def Address_spec_def Let_def after_call_def forward_args_def
      fill_defaults_def probe_def dial_refused_def refused_def)

subsection \<open>Terminal errors\<close>

text \<open>
  Claim C3, as stated, has \<open>lastError\<close> non-empty after any error other than \<open>io.EOF\<close>.
  The worker stores the error's text as it is: an error whose text is empty leaves
  \<open>lastError\<close> empty, with the tunnel marked unhealthy.
\<close>

theorem empty_error_text_counterexample:
  "Error (node_after (execForwarding fwd0 Address_spec [Some (Err '''')] node_bare)) = '''' \<and>
   \<not> Status (node_after (execForwarding fwd0 Address_spec [Some (Err '''')] node_bare))"
  by (simp add: fwd0_def node_bare_def Address_spec_def Let_def forward_args_def fill_defaults_def)

text \<open>
  Claim C3, amended: after any number of restarts (\<open>pre\<close>: results that are nil or
  \<open>io.EOF\<close>), an error \<open>e\<close> other than \<open>io.EOF\<close> leaves the tunnel unhealthy with
  \<open>lastError\<close> the text of \<open>e\<close>, non-empty whenever that text is; the worker has
  returned, and it has made one call for each restart and one for the failing attempt,
  whatever \<open>tsh.Forward\<close> would have returned afterwards (\<open>rest\<close>).
\<close>

theorem worker_stops_on_error:
  assumes "set pre \<subseteq> {None, Some EOF}" and "e \<noteq> EOF"
  shows "Status (node_after (execForwarding f A (pre @ Some e # rest) node)) = False \<and>
         Error (node_after (execForwarding f A (pre @ Some e # rest) node)) = error_text e \<and>
         (error_text e \<noteq> '''' \<longrightarrow>
            Error (node_after (execForwarding f A (pre @ Some e # rest) node)) \<noteq> '''') \<and>
         returned (execForwarding f A (pre @ Some e # rest) node) \<and>
         length (calls (execForwarding f A (pre @ Some e # rest) node)) = length pre + 1"
  using execForwarding_restarts [OF assms(1), of f A "Some e # rest" node]
    execForwarding_error_step [OF assms(2)]
  by simp

theorem worker_stops_on_error_witness:
  "set [Some EOF, None] \<subseteq> {None, Some EOF} \<and> refused \<noteq> EOF \<and> error_text refused \<noteq> '''' \<and>
   Status (node_after (execForwarding fwd0 Address_spec
      ([Some EOF, None] @ Some refused # [Some EOF, None]) node_bare)) = False \<and>
   Error (node_after (execForwarding fwd0 Address_spec
      ([Some EOF, None] @ Some refused # [Some EOF, None]) node_bare)) = ''connection refused'' \<and>
   returned (execForwarding fwd0 Address_spec
      ([Some EOF, None] @ Some refused # [Some EOF, None]) node_bare) \<and>
   length (calls (execForwarding fwd0 Address_spec
      ([Some EOF, None] @ Some refused # [Some EOF, None]) node_bare)) = 3"
  using worker_stops_on_error [of "[Some EOF, None]" refused fwd0 Address_spec
      "[Some EOF, None]" node_bare]
  by (simp add: refused_def)

subsection \<open>Run\<close>

text \<open>
  Claim C4: \<open>Run\<close> returns an error exactly when the list is empty; the error is
  \<open>forwarding configuration is empty\<close> and nothing has been started. On a non-empty
  list it returns nil, having started one worker for each node, in order, then the
  health checker, then the dashboard. \<open>Run\<close> has no other return: what \<open>tsh.Forward\<close>
  and the probes report goes into the nodes.
\<close>

theorem Run_error_iff_empty:
  "(fst (Run f) \<noteq> None \<longleftrightarrow> fwd_list f = []) \<and>
   (fwd_list f = [] \<longrightarrow> Run f = (Some (Err ''forwarding configuration is empty''), [])) \<and>
   (fwd_list f \<noteq> [] \<longrightarrow>
      Run f = (None, map GoExecForwarding (fwd_list f) @
                     [GoHealthCheck, CallNewForwarding (fwd_list f)]))"
  by (simp add: Run_def launch_workers_map)

theorem Run_error_iff_empty_witness:
  "fwd_list fwd0 = [] \<and>
   Run fwd0 = (Some (Err ''forwarding configuration is empty''), []) \<and>
   fwd_list fwd_two \<noteq> [] \<and>
   Run fwd_two = (None, [GoExecForwarding node_bare, GoExecForwarding node_own, GoHealthCheck,
                         CallNewForwarding [node_bare, node_own]])"
  using Run_error_iff_empty [of fwd0] Run_error_iff_empty [of fwd_two]
  by (simp add: fwd0_def fwd_two_def)

subsection \<open>The health probe\<close>

text \<open>
  Claim C5: a probe dials \<open>localhost\<close> at the node's listen port and has two outcomes.
  If the dial fails with \<open>err\<close>, the node is marked unhealthy with the text of \<open>err\<close> and
  the probe then does what a worker started on that node does: its first call of
  \<open>tsh.Forward\<close> has the worker's arguments, and while that call has not returned the
  node reads unhealthy with the dial error. If the dial succeeds, the node is marked
  healthy, its error is the empty string, and \<open>tsh.Forward\<close> is not called.
\<close>

theorem probe_outcomes:
  "(\<forall>err. dial (''localhost:'' @ ListenPort node) = Some err \<longrightarrow>
      probe f A dial results node =
        execForwarding f A results (node\<lparr>Status := False, Error := error_text err\<rparr>) \<and>
      hd (calls (probe f A dial results node)) =
        forward_args f A (fill_defaults f (node\<lparr>Status := False, Error := error_text err\<rparr>)) \<and>
      (results = [] \<longrightarrow>
         Status (node_after (probe f A dial results node)) = False \<and>
         Error (node_after (probe f A dial results node)) = error_text err)) \<and>
   (dial (''localhost:'' @ ListenPort node) = None \<longrightarrow>
      probe f A dial results node =
        \<lparr>node_after = node\<lparr>Status := True, Error := ''''\<rparr>, calls = [], returned = True\<rparr>)"
  by (simp add: probe_def execForwarding_first_call Let_def)

theorem probe_outcomes_witness:
  "dial_refused (''localhost:'' @ ListenPort node_bare) = Some refused \<and>
   probe fwd0 Address_spec dial_refused [] node_bare =
     \<lparr>node_after = \<lparr>ListenPort = ''8080'', Host = ''node-1'', UserLogin = ''root'',
                     Status = False, Error = ''connection refused''\<rparr>,
      calls = [\<lparr>arg_user = ''root'', arg_host = ''node-1'', arg_address = ''localhost:8080'',
                arg_in = \<lparr>dur = 180000000000\<rparr>\<rparr>],
      returned = False\<rparr> \<and>
   dial_ok (''localhost:'' @ ListenPort node_own) = None \<and>
   probe fwd0 Address_spec dial_ok [] (node_own\<lparr>Error := ''stale''\<rparr>) =
     \<lparr>node_after = \<lparr>ListenPort = ''8080'', Host = ''node-2'', UserLogin = ''admin'',
                     Status = True, Error = ''''\<rparr>,
      calls = [], returned = True\<rparr>"
  using probe_outcomes [of dial_refused node_bare fwd0 Address_spec "[]"]
    probe_outcomes [of dial_ok "node_own\<lparr>Error := ''stale''\<rparr>" fwd0 Address_spec "[]"]
  by (simp add: dial_refused_def dial_ok_def refused_def node_bare_def node_own_def fwd0_def
      Address_spec_def fill_defaults_def Let_def forward_args_def Minute_def Second_def
      Millisecond_def Microsecond_def Nanosecond_def)

subsection \<open>What the core writes into a node\<close>

text \<open>
  Claim C6, as stated, has the worker never change \<open>userLogin\<close> or \<open>remoteHost\<close>
  (\<open>node.UserLogin\<close>, \<open>node.Host\<close>). A node that has neither gets both written on the
  first pass of the loop, before \<open>tsh.Forward\<close> has returned anything.
\<close>

theorem spec_fields_counterexample:
  "UserLogin node_bare = '''' \<and> Host node_bare = '''' \<and>
   UserLogin (node_after (execForwarding fwd0 Address_spec [] node_bare)) = ''root'' \<and>
   Host (node_after (execForwarding fwd0 Address_spec [] node_bare)) = ''node-1''"
  by (simp add: fwd0_def node_bare_def Address_spec_def Let_def forward_args_def fill_defaults_def)

text \<open>
  Claim C6, amended: neither the worker nor a probe changes \<open>listenPort\<close>, and neither
  changes a \<open>userLogin\<close> or a \<open>remoteHost\<close> that is set; the worker replaces an empty
  \<open>userLogin\<close> by the default user and an empty \<open>remoteHost\<close> by the default host.
\<close>

theorem spec_fields_only_defaulted:
  "(ListenPort (node_after (execForwarding f A results node)) = ListenPort node \<and>
    ListenPort (node_after (probe f A dial results node)) = ListenPort node) \<and>
   (UserLogin node \<noteq> '''' \<longrightarrow>
      UserLogin (node_after (execForwarding f A results node)) = UserLogin node \<and>
      UserLogin (node_after (probe f A dial results node)) = UserLogin node) \<and>
   (Host node \<noteq> '''' \<longrightarrow>
      Host (node_after (execForwarding f A results node)) = Host node \<and>
      Host (node_after (probe f A dial results node)) = Host node) \<and>
   (UserLogin node = '''' \<longrightarrow>
      UserLogin (node_after (execForwarding f A results node)) = defaultUser f) \<and>
   (Host node = '''' \<longrightarrow>
      Host (node_after (execForwarding f A results node)) = nodeHost f)"
  using probe_frame [of f A dial results node]
  by (auto simp: execForwarding_frame)

theorem spec_fields_only_defaulted_witness:
  "UserLogin node_own \<noteq> '''' \<and> Host node_own \<noteq> '''' \<and>
   UserLogin node_bare = '''' \<and> Host node_bare = '''' \<and>
   ListenPort (node_after (execForwarding fwd0 Address_spec [Some EOF, None] node_own)) = ''8080'' \<and>
   UserLogin (node_after (execForwarding fwd0 Address_spec [Some EOF, None] node_own)) = ''admin'' \<and>
   Host (node_after (probe fwd0 Address_spec dial_refused [Some EOF, None] node_own)) = ''node-2'' \<and>
   UserLogin (node_after (execForwarding fwd0 Address_spec [Some EOF, None] node_bare)) = ''root'' \<and>
   Host (node_after (execForwarding fwd0 Address_spec [Some EOF, None] node_bare)) = ''node-1''"
  using spec_fields_only_defaulted [of fwd0 Address_spec "[Some EOF, None]" node_own dial_refused]
    spec_fields_only_defaulted [of fwd0 Address_spec "[Some EOF, None]" node_bare dial_refused]
  by (simp add: node_own_def node_bare_def fwd0_def)

subsection \<open>The idle input source\<close>

text \<open>
  Claim C7: the reader passed on any call of \<open>tsh.Forward\<close>, from a worker or from a
  probe, has a duration of three minutes (180 000 000 000 ns), and a read of it, on any
  buffer, sleeps for that duration, leaves the buffer as it was and returns zero bytes
  with \<open>io.EOF\<close>. Blocking is the argument of \<open>time.Sleep\<close>.
\<close>

theorem idle_reader_never_yields:
  "\<forall>c \<in> set (calls (execForwarding f A results node)) \<union> set (calls (probe f A dial results node)).
     dur (arg_in c) = 3 * 60 * 1000000000 \<and>
     (\<forall>p. Read (arg_in c) p = (3 * 60 * 1000000000, p, 0, Some EOF))"
  by (auto simp: Read_def Minute_def Second_def Millisecond_def Microsecond_def Nanosecond_def
      dest!: execForwarding_call_args probe_call_args)

theorem idle_reader_never_yields_witness:
  "calls (execForwarding fwd0 Address_spec [Some EOF] node_bare) =
     [\<lparr>arg_user = ''root'', arg_host = ''node-1'', arg_address = ''localhost:8080'',
        arg_in = \<lparr>dur = 180000000000\<rparr>\<rparr>,
      \<lparr>arg_user = ''root'', arg_host = ''node-1'', arg_address = ''localhost:8080'',
        arg_in = \<lparr>dur = 180000000000\<rparr>\<rparr>] \<and>
   Read \<lparr>dur = 180000000000\<rparr> [1, 2, 3] = (180000000000, [1, 2, 3], 0, Some EOF)"
  using idle_reader_never_yields [of fwd0 Address_spec "[Some EOF]" node_bare dial_ok]
  by (simp add: node_bare_def fwd0_def Address_spec_def fill_defaults_def Let_def forward_args_def
      after_call_def Minute_def Second_def Millisecond_def Microsecond_def Nanosecond_def)

section \<open>Properties of the selector\<close>

subsection \<open>Auxiliary facts\<close>

text \<open>
  Running the loop from \<open>k - 1\<close> down to 0 mirrors the first \<open>k\<close> and the last \<open>k\<close>
  elements and leaves the middle; no index leaves the list.
\<close>

lemma reverse_loop_nth:
  "2 * k \<le> length a \<Longrightarrow>
   \<exists>b. reverse_loop (int k - 1) a = Some b \<and> length b = length a \<and>
       (\<forall>j<length a. b ! j =
          (if j < k \<or> length a - k \<le> j then a ! (length a - 1 - j) else a ! j))"
proof (induction k arbitrary: a)
  case 0
  show ?case by (simp add: reverse_loop.simps)
next
  case (Suc k)
  let ?n = "length a"
  let ?opp = "?n - 1 - k"
  let ?a1 = "a[k := a ! ?opp, ?opp := a ! k]"
  from Suc.prems have n: "2 * k + 2 \<le> ?n" by simp
  have step: "reverse_loop (int (Suc k) - 1) a = reverse_loop (int k - 1) ?a1"
    using n
    by (subst reverse_loop.simps)
       (simp add: Let_def nat_diff_distrib' nat_add_distrib algebra_simps)
  from n have "2 * k \<le> length ?a1" by simp
  from Suc.IH [OF this] obtain b where
    b: "reverse_loop (int k - 1) ?a1 = Some b" "length b = ?n"
    and nth: "\<forall>j<?n. b ! j = (if j < k \<or> ?n - k \<le> j then ?a1 ! (?n - 1 - j) else ?a1 ! j)"
    by auto
  have "b ! j = (if j < Suc k \<or> ?n - Suc k \<le> j then a ! (?n - 1 - j) else a ! j)"
    if "j < ?n" for j
    using nth that n by (auto simp: nth_list_update)
  with b step show ?case by simp
qed

lemma reverse_loop_rev:
  "reverse_loop (int (length a) div 2 - 1) a = Some (rev a)"
proof -
  have "2 * (length a div 2) \<le> length a" by simp
  from reverse_loop_nth [OF this] obtain b where
    b: "reverse_loop (int (length a div 2) - 1) a = Some b" "length b = length a"
    and nth: "\<forall>j<length a. b ! j =
      (if j < length a div 2 \<or> length a - length a div 2 \<le> j
       then a ! (length a - 1 - j) else a ! j)"
    by blast
  have "b = rev a"
  proof (rule nth_equalityI)
    show "length b = length (rev a)" using b by simp
  next
    fix j assume "j < length b"
    then have j: "j < length a" using b by simp
    have "b ! j = a ! (length a - 1 - j)"
    proof (cases "j < length a div 2 \<or> length a - length a div 2 \<le> j")
      case True
      then show ?thesis using nth j by simp
    next
      case False
      then have "length a - 1 - j = j" using j by linarith
      then show ?thesis using nth j False by simp
    qed
    then show "b ! j = rev a ! j" using j by (simp add: rev_nth)
  qed
  moreover have "int (length a) div 2 = int (length a div 2)" by simp
  ultimately show ?thesis using b by simp
qed

lemma length_slice_elems: "wf_slice h s \<Longrightarrow> length (slice_elems h s) = len s"
  by (auto simp: wf_slice_def slice_elems_def)

lemma slice_elems_fresh:
  "length xs = n \<Longrightarrow> slice_elems (h @ [xs]) \<lparr>arr = length h, off = 0, len = n\<rparr> = xs"
  by (simp add: slice_elems_def)

text \<open>
  The whole of \<open>reverse\<close> on the heap: one array is added, holding the elements of the
  argument in reverse order, and the slice returned is all of that array.
\<close>

lemma reverse_heap:
  assumes "wf_slice h s"
  shows "reverse h s =
           Some (h @ [rev (slice_elems h s)], \<lparr>arr = length h, off = 0, len = len s\<rparr>)"
proof -
  let ?a = "\<lparr>arr = length h, off = 0, len = len s\<rparr>"
  let ?h1 = "h @ [replicate (len s) '''']"
  let ?xs = "slice_elems h s"
  from assms have n: "length ?xs = len s" by (rule length_slice_elems)
  from assms have old: "arr s < length h" by (simp add: wf_slice_def)
  have src: "slice_elems ?h1 s = ?xs"
    using old by (simp add: slice_elems_def nth_append)
  have dst: "slice_elems ?h1 ?a = replicate (len s) ''''"
    by (simp add: slice_elems_def)
  have h2: "copy_slice ?h1 ?a s = h @ [?xs]"
    using n by (simp add: copy_slice_def write_slice_def src dst Let_def)
  have elems: "slice_elems (h @ [?xs]) ?a = ?xs"
    using n by (simp add: slice_elems_def)
  have loop: "reverse_loop (int (len s) div 2 - 1) ?xs = Some (rev ?xs)"
    using reverse_loop_rev [of ?xs] n by simp
  have wr: "write_slice (h @ [?xs]) ?a (rev ?xs) = h @ [rev ?xs]"
    using n by (simp add: write_slice_def)
  show ?thesis
    by (simp add: reverse_def make_slice_def h2 elems loop wr)
qed

lemma NewLoginUser_ok:
  "wf_slice h s \<Longrightarrow>
   NewLoginUser h s None None =
     Some (Inr \<lparr>user_list = rev (slice_elems h s), selectedUser = '''', pos = 0\<rparr>)"
  by (simp add: NewLoginUser_def reverse_heap slice_elems_def)

lemma nav_user_list [simp]: "user_list (nav k l) = user_list l"
  by (cases k) simp_all

lemma press_user_list [simp]: "user_list (press ks l) = user_list l"
  by (induction ks l rule: press.induct) (simp_all add: handleNav_def)

lemma nav_pos_in_range:
  "0 \<le> pos l \<Longrightarrow> pos l \<le> int (length (user_list l)) - 1 \<Longrightarrow>
   0 \<le> pos (nav k l) \<and> pos (nav k l) \<le> int (length (user_list l)) - 1"
  by (cases k) auto

lemma press_pos_in_range:
  "0 \<le> pos l \<Longrightarrow> pos l \<le> int (length (user_list l)) - 1 \<Longrightarrow>
   0 \<le> pos (press ks l) \<and> pos (press ks l) \<le> int (length (user_list l)) - 1"
proof (induction ks l rule: press.induct)
  case (1 l)
  then show ?case by simp
next
  case (2 k written ks l)
  from nav_pos_in_range [OF "2.prems", of k]
  show ?case using "2.IH" by (simp add: handleNav_def)
qed

lemma press_empty_list: "user_list l = [] \<Longrightarrow> pos l = 0 \<Longrightarrow> pos (press ks l) = 0"
proof (induction ks l rule: press.induct)
  case (1 l)
  then show ?case by simp
next
  case (2 k written ks l)
  have "pos (nav k l) = 0" "user_list (nav k l) = []"
    using "2.prems" by (cases k; simp)+
  then show ?case using "2.IH" by (simp add: handleNav_def)
qed

subsection \<open>The cursor\<close>

text \<open>
  Claim C8: the selector that \<open>NewLoginUser\<close> builds has its cursor at 0. For a
  non-empty user list, after any sequence of Tab, ArrowUp and ArrowDown (whatever the
  writes to the view return) the cursor is between 0 and the length of the list minus
  one, and Enter selects the element of the list under the cursor and returns
  \<open>ErrQuit\<close>. For an empty user list, Enter after any such sequence indexes out of
  range and panics.
\<close>

theorem cursor_in_range:
  assumes "wf_slice h users" and "NewLoginUser h users None None = Some (Inr l0)"
  shows "pos l0 = 0 \<and> length (user_list l0) = len users \<and>
         (0 < len users \<longrightarrow>
            0 \<le> pos (press ks l0) \<and>
            pos (press ks l0) \<le> int (length (user_list (press ks l0))) - 1 \<and>
            handleEnter (press ks l0) =
              Some ((press ks l0)\<lparr>selectedUser :=
                      user_list l0 ! nat (pos (press ks l0))\<rparr>, Some ErrQuit)) \<and>
         (len users = 0 \<longrightarrow> handleEnter (press ks l0) = None)"
proof -
  from assms have l0: "l0 = \<lparr>user_list = rev (slice_elems h users), selectedUser = '''', pos = 0\<rparr>"
    by (simp add: NewLoginUser_ok)
  from assms(1) have n: "length (user_list l0) = len users"
    by (simp add: l0 length_slice_elems)
  have start: "pos l0 = 0" by (simp add: l0)
  have nonempty: "0 \<le> pos (press ks l0) \<and> pos (press ks l0) \<le> int (length (user_list l0)) - 1"
    if "0 < len users"
    using press_pos_in_range [of l0 ks] that n start by simp
  have empty: "handleEnter (press ks l0) = None" if "len users = 0"
    using press_empty_list [of l0 ks] that n start by (simp add: handleEnter_def)
  show ?thesis
    using n start nonempty empty by (auto simp: handleEnter_def)
qed

theorem cursor_in_range_witness:
  "wf_slice heap0 users3 \<and> 0 < len users3 \<and>
   NewLoginUser heap0 users3 None None =
     Some (Inr \<lparr>user_list = [''deploy'', ''admin'', ''root''], selectedUser = '''', pos = 0\<rparr>) \<and>
   handleEnter (press [(KeyTab, None), (KeyArrowDown, None), (KeyTab, None), (KeyArrowUp, None)]
       \<lparr>user_list = [''deploy'', ''admin'', ''root''], selectedUser = '''', pos = 0\<rparr>) =
     Some (\<lparr>user_list = [''deploy'', ''admin'', ''root''], selectedUser = ''admin'', pos = 1\<rparr>,
           Some ErrQuit) \<and>
   wf_slice heap0 users0 \<and> len users0 = 0 \<and>
   NewLoginUser heap0 users0 None None =
     Some (Inr \<lparr>user_list = [], selectedUser = '''', pos = 0\<rparr>) \<and>
   handleEnter (press [(KeyTab, None), (KeyArrowUp, None)]
       \<lparr>user_list = [], selectedUser = '''', pos = 0\<rparr>) = None"
proof -
  have w3: "wf_slice heap0 users3" and w0: "wf_slice heap0 users0"
    by (simp_all add: wf_slice_def heap0_def users3_def users0_def)
  have n3: "NewLoginUser heap0 users3 None None =
      Some (Inr \<lparr>user_list = [''deploy'', ''admin'', ''root''], selectedUser = '''', pos = 0\<rparr>)"
    using NewLoginUser_ok [OF w3] by (simp add: heap0_def users3_def slice_elems_def)
  have n0: "NewLoginUser heap0 users0 None None =
      Some (Inr \<lparr>user_list = [], selectedUser = '''', pos = 0\<rparr>)"
    using NewLoginUser_ok [OF w0] by (simp add: heap0_def users0_def slice_elems_def)
  show ?thesis
    using w3 w0 n3 n0
      cursor_in_range [OF w3 n3,
        of "[(KeyTab, None), (KeyArrowDown, None), (KeyTab, None), (KeyArrowUp, None)]"]
      cursor_in_range [OF w0 n0, of "[(KeyTab, None), (KeyArrowUp, None)]"]
    by (simp add: users3_def users0_def handleNav_def)
qed

subsection \<open>getUserLogin\<close>

lemma NewLoginUser_wf:
  "wf_slice h s \<Longrightarrow>
   NewLoginUser h s new_gui key_bind =
     (case new_gui of
        Some err \<Rightarrow> Some (Inl err)
      | None \<Rightarrow>
          (case key_bind of
             Some err \<Rightarrow> Some (Inl err)
           | None \<Rightarrow>
               Some (Inr \<lparr>user_list = rev (slice_elems h s), selectedUser = '''', pos = 0\<rparr>)))"
  by (simp add: NewLoginUser_def reverse_heap slice_elems_fresh length_slice_elems
      split: option.splits)

lemma LoginUser_Run_returns:
  "MainLoop l \<noteq> None \<Longrightarrow> \<exists>user err. LoginUser_Run MainLoop l = Some (user, err)"
  by (auto simp: LoginUser_Run_def split: option.splits prod.splits)

text \<open>
  \<open>getUserLogin\<close> returns on every path that does not reach the selector; where it does
  reach it (no flag error, no flag value, a node status, \<open>gocui\<close> set up), it returns
  if the main loop, started on the selector over the reversed logins, returns.
\<close>

lemma getUserLogin_returns:
  assumes "snd flag = None \<and> fst flag = '''' \<and> new_gui = None \<longrightarrow>
           (\<forall>status. Node_Status node = Some status \<longrightarrow>
              wf_slice h (UserLogins status) \<and>
              (key_bind = None \<longrightarrow>
                 MainLoop \<lparr>user_list = rev (slice_elems h (UserLogins status)),
                           selectedUser = '''', pos = 0\<rparr> \<noteq> None))"
  shows "\<exists>user err. getUserLogin h flag node new_gui key_bind MainLoop = Some (user, err)"
proof (cases flag)
  case (Pair userLogin ferr)
  show ?thesis
  proof (cases "ferr = None \<and> userLogin = ''''")
    case False
    then show ?thesis using Pair by (auto simp: getUserLogin_def)
  next
    case True
    show ?thesis
    proof (cases "Node_Status node")
      case None
      then show ?thesis using Pair True by (simp add: getUserLogin_def)
    next
      case (Some status)
      show ?thesis
      proof (cases new_gui)
        case gui: (Some e)
        then show ?thesis using Pair True Some by (simp add: getUserLogin_def NewLoginUser_def)
      next
        case gui: None
        from assms Pair True gui Some have wf: "wf_slice h (UserLogins status)"
          and ml: "key_bind = None \<longrightarrow>
                 MainLoop \<lparr>user_list = rev (slice_elems h (UserLogins status)),
                           selectedUser = '''', pos = 0\<rparr> \<noteq> None"
          by auto
        show ?thesis
        proof (cases key_bind)
          case kb: (Some e)
          then show ?thesis
            using Pair True Some gui by (simp add: getUserLogin_def NewLoginUser_wf [OF wf])
        next
          case kb: None
          with ml obtain user err where
            "LoginUser_Run MainLoop \<lparr>user_list = rev (slice_elems h (UserLogins status)),
                           selectedUser = '''', pos = 0\<rparr> = Some (user, err)"
            using LoginUser_Run_returns by blast
          then show ?thesis
            using Pair True Some gui kb
            by (simp add: getUserLogin_def NewLoginUser_wf [OF wf])
        qed
      qed
    qed
  qed
qed

text \<open>
  Where the main loop does not return, \<open>getUserLogin\<close> does not either: on an empty
  list of logins, Enter panics in \<open>handleEnter\<close>.
\<close>

lemma getUserLogin_empty_list_panics:
  "getUserLogin heap0 ('''', None) \<lparr>Node_Status = Some \<lparr>UserLogins = users0\<rparr>\<rparr> None None
     tab_enter = None"
proof -
  have w0: "wf_slice heap0 users0"
    by (simp add: wf_slice_def heap0_def users0_def)
  have n0: "NewLoginUser heap0 users0 None None =
      Some (Inr \<lparr>user_list = [], selectedUser = '''', pos = 0\<rparr>)"
    using NewLoginUser_ok [OF w0] by (simp add: heap0_def users0_def slice_elems_def)
  show ?thesis
    by (simp add: getUserLogin_def n0 LoginUser_Run_def tab_enter_def handleEnter_def
        handleNav_def)
qed

text \<open>
  Claim C9: \<open>getUserLogin\<close> never returns the empty string with a nil error. It
  returns a pair whenever the call does not reach the selector and, where it does,
  whenever the main loop returns; and whatever it returns has a non-empty user with a
  nil error, or an empty user with an error that is not nil. This holds for any flag
  value, node, heap and outcome of \<open>gocui\<close>.
\<close>

theorem getUserLogin_user_or_error:
  "getUserLogin h flag node new_gui key_bind MainLoop \<noteq> Some ('''', None) \<and>
   (\<forall>user err. getUserLogin h flag node new_gui key_bind MainLoop = Some (user, err) \<longrightarrow>
      (user \<noteq> '''' \<and> err = None) \<or> (user = '''' \<and> err \<noteq> None)) \<and>
   ((snd flag = None \<and> fst flag = '''' \<and> new_gui = None \<longrightarrow>
       (\<forall>status. Node_Status node = Some status \<longrightarrow>
          wf_slice h (UserLogins status) \<and>
          (key_bind = None \<longrightarrow>
             MainLoop \<lparr>user_list = rev (slice_elems h (UserLogins status)),
                       selectedUser = '''', pos = 0\<rparr> \<noteq> None))) \<longrightarrow>
    (\<exists>user err. getUserLogin h flag node new_gui key_bind MainLoop = Some (user, err) \<and>
       ((user \<noteq> '''' \<and> err = None) \<or> (user = '''' \<and> err \<noteq> None))))"
proof -
  have shape: "(user \<noteq> '''' \<and> err = None) \<or> (user = '''' \<and> err \<noteq> None)"
    if "getUserLogin h flag node new_gui key_bind MainLoop = Some (user, err)" for user err
    using that
    by (auto simp: getUserLogin_def split: prod.splits option.splits sum.splits if_splits)
  have never: "getUserLogin h flag node new_gui key_bind MainLoop \<noteq> Some ('''', None)"
    using shape [of "''''" None] by auto
  show ?thesis
    using shape never getUserLogin_returns [of flag new_gui node h key_bind MainLoop]
    by blast
qed

theorem getUserLogin_user_or_error_witness:
  "getUserLogin heap0 (''root'', None) \<lparr>Node_Status = None\<rparr> None None tab_enter =
     Some (''root'', None) \<and>
   getUserLogin heap0 ('''', None) \<lparr>Node_Status = None\<rparr> None None tab_enter =
     Some ('''', Some (Err ''need to run using flag -a or -r to get the latest user login'')) \<and>
   wf_slice heap0 users3 \<and>
   tab_enter \<lparr>user_list = rev (slice_elems heap0 users3), selectedUser = '''', pos = 0\<rparr> \<noteq> None \<and>
   getUserLogin heap0 ('''', None) \<lparr>Node_Status = Some \<lparr>UserLogins = users3\<rparr>\<rparr> None None
       tab_enter = Some (''admin'', None) \<and>
   getUserLogin heap0 ('''', None) \<lparr>Node_Status = Some \<lparr>UserLogins = users3\<rparr>\<rparr> None None
       (\<lambda>l. Some (l, Some ErrQuit)) = Some ('''', Some (Err ''user login must not be empty''))"
proof -
  have w3: "wf_slice heap0 users3"
    by (simp add: wf_slice_def heap0_def users3_def)
  have e3: "rev (slice_elems heap0 users3) = [''deploy'', ''admin'', ''root'']"
    by (simp add: heap0_def users3_def slice_elems_def)
  have n3: "NewLoginUser heap0 users3 None None =
      Some (Inr \<lparr>user_list = [''deploy'', ''admin'', ''root''], selectedUser = '''', pos = 0\<rparr>)"
    using NewLoginUser_ok [OF w3] by (simp add: e3)
  have t3: "tab_enter \<lparr>user_list = rev (slice_elems heap0 users3), selectedUser = '''',
      pos = 0\<rparr> \<noteq> None"
    by (simp add: e3 tab_enter_def handleEnter_def handleNav_def)
  show ?thesis
    using w3 t3
      getUserLogin_user_or_error [of heap0 "(''root'', None)" "\<lparr>Node_Status = None\<rparr>"
        None None tab_enter]
      getUserLogin_user_or_error [of heap0 "('''', None)"
        "\<lparr>Node_Status = Some \<lparr>UserLogins = users3\<rparr>\<rparr>" None None tab_enter]
    by (simp add: getUserLogin_def n3 LoginUser_Run_def tab_enter_def handleEnter_def
        handleNav_def)
qed

subsection \<open>reverse\<close>

text \<open>
  Claim C10: for a slice \<open>s\<close> of the heap, \<open>reverse(s)\<close> returns (it does not panic) a
  slice on a new array, of the length of \<open>s\<close>, whose element at \<open>i\<close> is the element of
  \<open>s\<close> at \<open>len(s) - 1 - i\<close>; every array that was there, and so \<open>s\<close>, is as it was; and
  reversing the result gives the elements of \<open>s\<close> again.
\<close>

theorem reverse_correct:
  assumes "wf_slice h s"
  shows "\<exists>h' a. reverse h s = Some (h', a) \<and>
           length h \<le> arr a \<and> wf_slice h' a \<and> len a = len s \<and>
           (\<forall>i<len s. slice_elems h' a ! i = slice_elems h s ! (len s - 1 - i)) \<and>
           (\<forall>j<length h. h' ! j = h ! j) \<and> slice_elems h' s = slice_elems h s \<and>
           (\<exists>h'' b. reverse h' a = Some (h'', b) \<and> slice_elems h'' b = slice_elems h s)"
proof -
  let ?xs = "slice_elems h s"
  let ?h' = "h @ [rev ?xs]"
  let ?a = "\<lparr>arr = length h, off = 0, len = len s\<rparr>"
  from assms have n: "length ?xs = len s" by (rule length_slice_elems)
  from assms have old: "arr s < length h" by (simp add: wf_slice_def)
  have r: "reverse h s = Some (?h', ?a)" using assms by (rule reverse_heap)
  have wa: "wf_slice ?h' ?a" using n by (simp add: wf_slice_def)
  have ea: "slice_elems ?h' ?a = rev ?xs" using n by (simp add: slice_elems_fresh)
  have nth: "slice_elems ?h' ?a ! i = ?xs ! (len s - 1 - i)" if "i < len s" for i
    using that n by (simp add: ea rev_nth)
  have frame: "?h' ! j = h ! j" if "j < length h" for j
    using that by (simp add: nth_append)
  have same: "slice_elems ?h' s = ?xs"
    using old by (simp add: slice_elems_def nth_append)
  have again: "reverse ?h' ?a =
      Some (?h' @ [rev (slice_elems ?h' ?a)], \<lparr>arr = length ?h', off = 0, len = len ?a\<rparr>)"
    using wa by (rule reverse_heap)
  have twice: "slice_elems (?h' @ [rev (slice_elems ?h' ?a)])
      \<lparr>arr = length ?h', off = 0, len = len ?a\<rparr> = ?xs"
    using n slice_elems_fresh [of ?xs "len s" ?h'] by (simp add: ea)
  have inner: "\<exists>h'' b. reverse ?h' ?a = Some (h'', b) \<and> slice_elems h'' b = ?xs"
    using again twice by simp
  show ?thesis
    by (rule exI [of _ ?h'], rule exI [of _ ?a]) (simp add: r wa nth frame same inner)
qed

theorem reverse_correct_witness:
  "wf_slice [[''a'', ''b'', ''c'', ''d'', ''e'']] \<lparr>arr = 0, off = 1, len = 3\<rparr> \<and>
   reverse [[''a'', ''b'', ''c'', ''d'', ''e'']] \<lparr>arr = 0, off = 1, len = 3\<rparr> =
     Some ([[''a'', ''b'', ''c'', ''d'', ''e''], [''d'', ''c'', ''b'']],
           \<lparr>arr = 1, off = 0, len = 3\<rparr>)"
proof -
  have w: "wf_slice [[''a'', ''b'', ''c'', ''d'', ''e'']] \<lparr>arr = 0, off = 1, len = 3\<rparr>"
    by (simp add: wf_slice_def)
  from reverse_correct [OF w] obtain h' a where
    r: "reverse [[''a'', ''b'', ''c'', ''d'', ''e'']] \<lparr>arr = 0, off = 1, len = 3\<rparr> = Some (h', a)"
    by blast
  have "reverse [[''a'', ''b'', ''c'', ''d'', ''e'']] \<lparr>arr = 0, off = 1, len = 3\<rparr> =
     Some ([[''a'', ''b'', ''c'', ''d'', ''e''], [''d'', ''c'', ''b'']],
           \<lparr>arr = 1, off = 0, len = 3\<rparr>)"
    using reverse_heap [OF w] by (simp add: slice_elems_def)
  with w r show ?thesis by simp
qed

end
